theory Spec2Isabelle
  imports Main
begin

section \<open>The network helper: api.js\<close>

text \<open>
  What \<open>fetch\<close> hands back to the two helpers. The promise either rejects (a network
  error; the browser's \<open>TypeError\<close> carries a message) or resolves to a response, of
  which the helpers read \<open>res.ok\<close>, \<open>res.text()\<close> and \<open>res.json()\<close>. Reading the body
  may itself reject; \<open>Inl\<close> holds the message of the error in that case. A parsed
  body is a JSON value; the component stores it and no function here looks inside it.
\<close>

datatype json =
    JNull
  | JBool bool
  | JNum int
  | JStr string
  | JArr "json list"
  | JObj "(string \<times> json) list"

record response =
  res_ok :: bool
  res_text :: "string + string"
  res_json :: "string + json"

datatype fetch_outcome = Rejected string | Resolved response

text \<open>
  A multipart body is the ordered list of the parts appended to the \<open>FormData\<close>.
  Both requests go to \<open>${API_BASE}/api/uploads\<close>; they differ in method and body.
\<close>

datatype 'f part = FilePart 'f | TextPart string

type_synonym 'f formData = "(string \<times> 'f part) list"

datatype 'f request = GetUploads | PostUploads "'f formData"

text \<open>
  An async function that throws is a result \<open>Inl message\<close>: the callers only ever read
  \<open>err.message\<close>.
\<close>

definition fetchUploads :: "fetch_outcome \<Rightarrow> string + json" where
  "fetchUploads out =
     (case out of
        Rejected m \<Rightarrow> Inl m
      | Resolved res \<Rightarrow>
          if \<not> res_ok res then Inl ''Failed to load uploads''
          else res_json res)"

text \<open>\<open>if (value) formData.append(key, value)\<close>: a JavaScript string is truthy unless empty.\<close>

definition append_if :: "string \<Rightarrow> string \<Rightarrow> 'f formData" where
  "append_if key v = (if v \<noteq> [] then [(key, TextPart v)] else [])"

definition uploadImage_formData ::
  "'f list \<Rightarrow> string \<Rightarrow> string \<Rightarrow> string \<Rightarrow> string \<Rightarrow> 'f formData" where
  "uploadImage_formData fs profileUrl' notes' profileBio' conversationText' =
     map (\<lambda>file. (''files'', FilePart file)) fs
     @ append_if ''profile_url'' profileUrl'
     @ append_if ''notes'' notes'
     @ append_if ''profile_bio'' profileBio'
     @ append_if ''conversation_text'' conversationText'"

text \<open>
  \<open>uploadImage\<close> builds the body above, issues the request, and goes on after
  \<open>await fetch(...)\<close> with what follows.
\<close>

definition uploadImage_result :: "fetch_outcome \<Rightarrow> string + json" where
  "uploadImage_result out =
     (case out of
        Rejected m \<Rightarrow> Inl m
      | Resolved res \<Rightarrow>
          if \<not> res_ok res then
            (case res_text res of
               Inl m \<Rightarrow> Inl m
             | Inr txt \<Rightarrow> Inl (if txt \<noteq> [] then txt else ''Upload failed''))
          else res_json res)"

section \<open>The component state: App.jsx\<close>

text \<open>The ten \<open>useState\<close> cells of \<open>App\<close>. Preview URLs are numbered object URLs.\<close>

type_synonym url = nat

record 'f app =
  activeTab :: string
  files :: "'f list"
  previews :: "url list"
  profileUrl :: string
  profileBio :: string
  conversationText :: string
  "notes" :: string
  uploads :: json
  error :: "string option"
  isSubmitting :: bool

definition tabs :: "string list" where
  "tabs = [''dashboard'', ''recent'', ''chat'', ''profile'']"

definition App_init :: "'f app" where
  "App_init =
     \<lparr> activeTab = ''dashboard'', files = [], previews = [], profileUrl = [],
       profileBio = [], conversationText = [], notes = [], uploads = JArr [],
       error = None, isSubmitting = False \<rparr>"

subsection \<open>refresh\<close>

text \<open>
  \<open>refresh\<close> issues the list request at once and runs its remaining lines when the
  request settles: \<open>setUploads(data)\<close>, or \<open>setError(err.message)\<close> in the \<open>catch\<close>.
\<close>

definition refresh_done :: "'f app \<Rightarrow> fetch_outcome \<Rightarrow> 'f app" where
  "refresh_done s out =
     (case fetchUploads out of
        Inr data \<Rightarrow> s\<lparr>uploads := data\<rparr>
      | Inl m \<Rightarrow> s\<lparr>error := Some m\<rparr>)"

definition refresh :: "'f app \<Rightarrow> fetch_outcome \<Rightarrow> 'f app \<times> 'f request list" where
  "refresh s out = (refresh_done s out, [GetUploads])"

subsection \<open>handleFileChange\<close>

text \<open>
  \<open>event.target.files ?? []\<close>: a missing file list (\<open>null\<close> or \<open>undefined\<close>) is \<open>None\<close>.
  \<open>slice(0, 5)\<close> is \<open>take 5\<close>.
\<close>

definition handleFileChange :: "'f list option \<Rightarrow> 'f app \<Rightarrow> 'f app" where
  "handleFileChange target_files s =
     (let selected = (case target_files of None \<Rightarrow> [] | Some fl \<Rightarrow> fl)
      in s\<lparr>files := take 5 selected\<rparr>)"

subsection \<open>handleSubmit\<close>

text \<open>
  The handler runs in three stretches, cut at its two \<open>await\<close>s.
  \<^enum> Up to \<open>await uploadImage(...)\<close>: the check of the selection, \<open>setSubmitting(true)\<close>,
    \<open>setError(null)\<close>, and the request that \<open>uploadImage\<close> issues. The result is the new
    state and the request, if one was issued.
  \<^enum> From the settled upload to \<open>await refresh()\<close>: on success the five setters that clear
    the form and the list request of \<open>refresh\<close> (the flag says that the handler goes on);
    on failure the \<open>catch\<close> and the \<open>finally\<close>.
  \<^enum> From the settled list request to the end: the rest of \<open>refresh\<close>, which catches its
    own error, then \<open>setActiveTab("recent")\<close> and the \<open>finally\<close>.
  \<open>event.target.reset()\<close> resets the form's DOM controls and touches no state cell.
\<close>

definition handleSubmit_start :: "'f app \<Rightarrow> 'f app \<times> 'f request option" where
  "handleSubmit_start s =
     (if length (files s) = 0 then (s\<lparr>error := Some ''Add at least one image''\<rparr>, None)
      else
        (s\<lparr>isSubmitting := True, error := None\<rparr>,
         Some (PostUploads
           (uploadImage_formData (files s) (profileUrl s) (notes s) (profileBio s)
              (conversationText s)))))"

definition handleSubmit_uploaded :: "'f app \<Rightarrow> fetch_outcome \<Rightarrow> 'f app \<times> bool" where
  "handleSubmit_uploaded s out =
     (case uploadImage_result out of
        Inr _ \<Rightarrow>
          (s\<lparr>files := [], profileUrl := [], profileBio := [], conversationText := [],
             notes := []\<rparr>, True)
      | Inl m \<Rightarrow> (s\<lparr>error := Some m, isSubmitting := False\<rparr>, False))"

definition handleSubmit_refreshed :: "'f app \<Rightarrow> fetch_outcome \<Rightarrow> 'f app" where
  "handleSubmit_refreshed s out =
     (refresh_done s out)\<lparr>activeTab := ''recent'', isSubmitting := False\<rparr>"

text \<open>
  One whole submit attempt with nothing else happening in between: the state after it and
  the requests it issued, in order. \<open>post\<close> is the outcome of the create request, \<open>get\<close> the
  outcome of the list request (read only when the handler gets that far).
\<close>

definition handleSubmit ::
  "'f app \<Rightarrow> fetch_outcome \<Rightarrow> fetch_outcome \<Rightarrow> 'f app \<times> 'f request list" where
  "handleSubmit s post get =
     (case handleSubmit_start s of
        (s1, None) \<Rightarrow> (s1, [])
      | (s1, Some req) \<Rightarrow>
          (case handleSubmit_uploaded s1 post of
             (s2, False) \<Rightarrow> (s2, [req])
           | (s2, True) \<Rightarrow> (handleSubmit_refreshed s2 get, [req, GetUploads])))"

subsection \<open>What the views render of the error slot\<close>

text \<open>
  \<open>{error && <p ...>{error}</p>}\<close> in \<open>DashboardView\<close>: nothing for \<open>null\<close> and for the empty
  string. The other three views never read \<open>error\<close>.
\<close>

definition DashboardView_error :: "string option \<Rightarrow> string option" where
  "DashboardView_error e =
     (case e of None \<Rightarrow> None | Some m \<Rightarrow> if m \<noteq> [] then Some m else None)"

definition shown_error :: "'f app \<Rightarrow> string option" where
  "shown_error s =
     (if activeTab s = ''dashboard'' then DashboardView_error (error s) else None)"


section \<open>The browser around the component\<close>

subsection \<open>Object URLs and the effect on \<open>files\<close>\<close>

text \<open>
  \<open>URL.createObjectURL\<close> hands out a URL never handed out before and keeps it alive,
  together with the file it points to, until \<open>URL.revokeObjectURL\<close> is called on it.
\<close>

record 'f url_store =
  live :: "(url \<times> 'f) list"
  fresh :: url

definition createObjectURL :: "'f \<Rightarrow> 'f url_store \<Rightarrow> url \<times> 'f url_store" where
  "createObjectURL file st =
     (fresh st, st\<lparr>live := live st @ [(fresh st, file)], fresh := Suc (fresh st)\<rparr>)"

definition revokeObjectURL :: "url \<Rightarrow> 'f url_store \<Rightarrow> 'f url_store" where
  "revokeObjectURL u st = st\<lparr>live := filter (\<lambda>(u', _). u' \<noteq> u) (live st)\<rparr>"

text \<open>\<open>files.map((file) => URL.createObjectURL(file))\<close>, left to right.\<close>

fun create_urls :: "'f list \<Rightarrow> 'f url_store \<Rightarrow> url list \<times> 'f url_store" where
  "create_urls [] st = ([], st)"
| "create_urls (file # rest) st =
     (case createObjectURL file st of
        (u, st1) \<Rightarrow> (case create_urls rest st1 of (us, st2) \<Rightarrow> (u # us, st2)))"

text \<open>\<open>urls.forEach((url) => URL.revokeObjectURL(url))\<close>.\<close>

fun revoke_urls :: "url list \<Rightarrow> 'f url_store \<Rightarrow> 'f url_store" where
  "revoke_urls [] st = st"
| "revoke_urls (u # us) st = revoke_urls us (revokeObjectURL u st)"

text \<open>
  The client: the component state, the object URLs of the page, the \<open>urls\<close> that the
  cleanup of the last run of the effect closes over, the async functions suspended at an
  \<open>await\<close>, and the requests sent so far.
\<close>

datatype task = MountRefresh | SubmitUpload | SubmitRefresh

record 'f client =
  ui :: "'f app"
  store :: "'f url_store"
  cleanup_urls :: "url list"
  tasks :: "task list"
  sent :: "'f request list"

text \<open>
  \<open>useEffect(..., [files])\<close> after a commit in which \<open>files\<close> is a new array: the cleanup
  of the previous run, then the effect itself, whose \<open>setPreviews(urls)\<close> is applied with
  it. Every \<open>setFiles\<close> of the component passes a new array.
\<close>

definition files_effect :: "'f client \<Rightarrow> 'f client" where
  "files_effect c =
     (let st1 = revoke_urls (cleanup_urls c) (store c) in
      case create_urls (files (ui c)) st1 of
        (urls, st2) \<Rightarrow>
          c\<lparr>ui := (ui c)\<lparr>previews := urls\<rparr>, store := st2, cleanup_urls := urls\<rparr>)"

subsection \<open>Events\<close>

text \<open>
  What can happen to a mounted client: the user acts on a control that is rendered and
  enabled, or a request in flight settles and the suspended function goes on.
\<close>

datatype 'f event =
    FileChange "'f list option"
  | ProfileUrlChange string
  | ProfileBioChange string
  | ConversationTextChange string
  | NotesChange string
  | TabClick string
  | Submit
  | MountRefreshSettled fetch_outcome
  | UploadSettled fetch_outcome
  | SubmitRefreshSettled fetch_outcome

text \<open>
  The first render and its two effects: \<open>refresh()\<close> sends the list request and is
  suspended; the effect on \<open>files\<close> runs on the empty selection.
\<close>

definition mount :: "'f client" where
  "mount =
     files_effect
       \<lparr> ui = App_init, store = \<lparr>live = [], fresh = 0\<rparr>, cleanup_urls = [],
         tasks = [MountRefresh], sent = [GetUploads] \<rparr>"

text \<open>
  The form, with its inputs and its submit button, is rendered only on the dashboard tab;
  the button carries \<open>disabled={isSubmitting}\<close>, and a form whose submit button is
  disabled is not submitted from the keyboard either. The bottom bar has one button per
  entry of \<open>tabs\<close>. \<open>None\<close>: the event cannot happen in this state.

  The setters of a handler are applied, and the effects of the resulting commit run,
  before the next event is handled. Every setter call in the component passes a value,
  never an updater, so a suspended handler that goes on writes to the state as it is then.
\<close>

definition on_dashboard :: "'f client \<Rightarrow> bool" where
  "on_dashboard c = (activeTab (ui c) = ''dashboard'')"

definition submit_enabled :: "'f client \<Rightarrow> bool" where
  "submit_enabled c = (on_dashboard c \<and> \<not> isSubmitting (ui c))"

fun step :: "'f client \<Rightarrow> 'f event \<Rightarrow> 'f client option" where
  "step c (FileChange fl) =
     (if on_dashboard c then Some (files_effect (c\<lparr>ui := handleFileChange fl (ui c)\<rparr>))
      else None)"
| "step c (ProfileUrlChange v) =
     (if on_dashboard c then Some (c\<lparr>ui := (ui c)\<lparr>profileUrl := v\<rparr>\<rparr>) else None)"
| "step c (ProfileBioChange v) =
     (if on_dashboard c then Some (c\<lparr>ui := (ui c)\<lparr>profileBio := v\<rparr>\<rparr>) else None)"
| "step c (ConversationTextChange v) =
     (if on_dashboard c then Some (c\<lparr>ui := (ui c)\<lparr>conversationText := v\<rparr>\<rparr>) else None)"
| "step c (NotesChange v) =
     (if on_dashboard c then Some (c\<lparr>ui := (ui c)\<lparr>notes := v\<rparr>\<rparr>) else None)"
| "step c (TabClick t) =
     (if t \<in> set tabs then Some (c\<lparr>ui := (ui c)\<lparr>activeTab := t\<rparr>\<rparr>) else None)"
| "step c Submit =
     (if submit_enabled c then
        (case handleSubmit_start (ui c) of
           (s1, None) \<Rightarrow> Some (c\<lparr>ui := s1\<rparr>)
         | (s1, Some req) \<Rightarrow>
             Some (c\<lparr>ui := s1, tasks := tasks c @ [SubmitUpload], sent := sent c @ [req]\<rparr>))
      else None)"
| "step c (MountRefreshSettled out) =
     (if MountRefresh \<in> set (tasks c) then
        Some (c\<lparr>ui := refresh_done (ui c) out, tasks := remove1 MountRefresh (tasks c)\<rparr>)
      else None)"
| "step c (UploadSettled out) =
     (if SubmitUpload \<in> set (tasks c) then
        (case handleSubmit_uploaded (ui c) out of
           (s2, False) \<Rightarrow> Some (c\<lparr>ui := s2, tasks := remove1 SubmitUpload (tasks c)\<rparr>)
         | (s2, True) \<Rightarrow>
             Some (files_effect
               (c\<lparr>ui := s2, tasks := remove1 SubmitUpload (tasks c) @ [SubmitRefresh],
                  sent := sent c @ [GetUploads]\<rparr>)))
      else None)"
| "step c (SubmitRefreshSettled out) =
     (if SubmitRefresh \<in> set (tasks c) then
        Some (c\<lparr>ui := handleSubmit_refreshed (ui c) out,
                tasks := remove1 SubmitRefresh (tasks c)\<rparr>)
      else None)"

fun run :: "'f client \<Rightarrow> 'f event list \<Rightarrow> 'f client option" where
  "run c [] = Some c"
| "run c (ev # evs) = (case step c ev of None \<Rightarrow> None | Some c' \<Rightarrow> run c' evs)"


section \<open>Invariants of the running client\<close>

text \<open>
  Between events, the live object URLs are the ones the last run of the effect made: one
  per selected file, in order, they are what \<open>previews\<close> holds and what the next cleanup
  will revoke, and all of them were handed out before.
\<close>

definition previews_in_step :: "'f client \<Rightarrow> bool" where
  "previews_in_step c \<longleftrightarrow>
     map fst (live (store c)) = cleanup_urls c
     \<and> map snd (live (store c)) = files (ui c)
     \<and> previews (ui c) = cleanup_urls c
     \<and> distinct (cleanup_urls c)
     \<and> (\<forall>u \<in> set (cleanup_urls c). u < fresh (store c))"

text \<open>The bodies of the create requests in a log, and the submit handlers still suspended.\<close>

definition creates :: "'f request list \<Rightarrow> 'f formData list" where
  "creates rs = concat (map (\<lambda>r. case r of GetUploads \<Rightarrow> [] | PostUploads fd \<Rightarrow> [fd]) rs)"

definition submits_pending :: "'f client \<Rightarrow> nat" where
  "submits_pending c = count_list (tasks c) SubmitUpload + count_list (tasks c) SubmitRefresh"


definition one_submit :: "'f client \<Rightarrow> bool" where
  "one_submit c \<longleftrightarrow> submits_pending c = (if isSubmitting (ui c) then 1 else 0)"


section \<open>One submit attempt\<close>

lemma handleSubmit_no_files:
  "files s = [] \<Longrightarrow>
   handleSubmit s post get = (s\<lparr>error := Some ''Add at least one image''\<rparr>, [])"
  by (simp add: handleSubmit_def handleSubmit_start_def)

lemma handleSubmit_failed:
  "files s \<noteq> [] \<Longrightarrow> uploadImage_result post = Inl m \<Longrightarrow>
   handleSubmit s post get =
     (s\<lparr>error := Some m, isSubmitting := False\<rparr>,
      [PostUploads (uploadImage_formData (files s) (profileUrl s) (notes s) (profileBio s)
         (conversationText s))])"
  by (simp add: handleSubmit_def handleSubmit_start_def handleSubmit_uploaded_def)

lemma handleSubmit_succeeded:
  "files s \<noteq> [] \<Longrightarrow> uploadImage_result post = Inr r \<Longrightarrow>
   handleSubmit s post get =
     ((refresh_done
         (s\<lparr>isSubmitting := True, error := None, files := [], profileUrl := [],
            profileBio := [], conversationText := [], notes := []\<rparr>) get)
        \<lparr>activeTab := ''recent'', isSubmitting := False\<rparr>,
      [PostUploads (uploadImage_formData (files s) (profileUrl s) (notes s) (profileBio s)
         (conversationText s)), GetUploads])"
  by (simp add: handleSubmit_def handleSubmit_start_def handleSubmit_uploaded_def
      handleSubmit_refreshed_def)

text \<open>
  C1. A submit attempt with no file selected issues no request at all (so \<open>uploadImage\<close>
  is never called), changes nothing but the error slot, which it sets to the validation
  message, and that message is what the dashboard, the view holding the form, renders.
\<close>

theorem submit_without_files_is_local:
  assumes "files s = []"
  shows "snd (handleSubmit s post get) = []
       \<and> fst (handleSubmit s post get) = s\<lparr>error := Some ''Add at least one image''\<rparr>
       \<and> (activeTab s = ''dashboard'' \<longrightarrow>
            shown_error (fst (handleSubmit s post get)) = Some ''Add at least one image'')"
  using assms
  by (simp add: handleSubmit_def handleSubmit_start_def shown_error_def
      DashboardView_error_def)

theorem submit_without_files_is_local_witness:
  "files (App_init :: nat app) = [] \<and> activeTab (App_init :: nat app) = ''dashboard''
   \<and> snd (handleSubmit (App_init :: nat app) (Rejected ''x'') (Rejected ''y'')) = []
   \<and> shown_error (fst (handleSubmit (App_init :: nat app) (Rejected ''x'') (Rejected ''y'')))
       = Some ''Add at least one image''"
proof -
  have h: "files (App_init :: nat app) = []"
    by (simp add: App_init_def)
  have d: "activeTab (App_init :: nat app) = ''dashboard''"
    by (simp add: App_init_def)
  from submit_without_files_is_local [OF h, of "Rejected ''x''" "Rejected ''y''"] h d
  show ?thesis
    by blast
qed

text \<open>
  C2, as the code has it. When the create request fails, by a rejected request (a network
  error) or by a response that is not ok, the uploads list, the selection and the four
  text fields are as before, and the error slot holds the message of the error that
  \<open>uploadImage\<close> threw: for a response that is not ok, the body text when it is not empty
  and \<open>Upload failed\<close> otherwise (the message of the read error when the body could not
  be read); for a rejected request, the message of the rejection.
\<close>

theorem failed_create_keeps_form:
  assumes "files s \<noteq> []"
    and "(\<exists>e. post = Rejected e) \<or> (\<exists>res. post = Resolved res \<and> \<not> res_ok res)"
  shows "uploads (fst (handleSubmit s post get)) = uploads s
       \<and> files (fst (handleSubmit s post get)) = files s
       \<and> profileUrl (fst (handleSubmit s post get)) = profileUrl s
       \<and> profileBio (fst (handleSubmit s post get)) = profileBio s
       \<and> conversationText (fst (handleSubmit s post get)) = conversationText s
       \<and> notes (fst (handleSubmit s post get)) = notes s
       \<and> error (fst (handleSubmit s post get)) =
           Some (case post of
                   Rejected e \<Rightarrow> e
                 | Resolved res \<Rightarrow>
                     (case res_text res of
                        Inr txt \<Rightarrow> if txt \<noteq> [] then txt else ''Upload failed''
                      | Inl e \<Rightarrow> e))
       \<and> snd (handleSubmit s post get) =
           [PostUploads (uploadImage_formData (files s) (profileUrl s) (notes s)
              (profileBio s) (conversationText s))]"
proof -
  let ?m = "case post of
              Rejected e \<Rightarrow> e
            | Resolved res \<Rightarrow>
                (case res_text res of
                   Inr txt \<Rightarrow> if txt \<noteq> [] then txt else ''Upload failed''
                 | Inl e \<Rightarrow> e)"
  have thrown: "uploadImage_result post = Inl ?m"
    using assms(2) by (auto simp: uploadImage_result_def split: sum.splits)
  show ?thesis
    by (simp add: handleSubmit_failed [OF assms(1) thrown])
qed

theorem failed_create_keeps_form_witness:
  "files (App_init\<lparr>files := [0::nat], notes := ''hi''\<rparr>) \<noteq> []
   \<and> notes (fst (handleSubmit (App_init\<lparr>files := [0::nat], notes := ''hi''\<rparr>)
        (Resolved \<lparr>res_ok = False, res_text = Inr ''disk full'', res_json = Inl ''bad json''\<rparr>)
        (Rejected ''''))) = ''hi''
   \<and> error (fst (handleSubmit (App_init\<lparr>files := [0::nat], notes := ''hi''\<rparr>)
        (Resolved \<lparr>res_ok = False, res_text = Inr ''disk full'', res_json = Inl ''bad json''\<rparr>)
        (Rejected ''''))) = Some ''disk full''
   \<and> error (fst (handleSubmit (App_init\<lparr>files := [0::nat], notes := ''hi''\<rparr>)
        (Resolved \<lparr>res_ok = False, res_text = Inr [], res_json = Inr (JArr [])\<rparr>)
        (Rejected ''''))) = Some ''Upload failed''
   \<and> error (fst (handleSubmit (App_init\<lparr>files := [0::nat], notes := ''hi''\<rparr>)
        (Rejected ''Failed to fetch'') (Rejected ''''))) = Some ''Failed to fetch''"
proof -
  let ?s = "App_init\<lparr>files := [0::nat], notes := ''hi''\<rparr>"
  let ?full = "Resolved \<lparr>res_ok = False, res_text = Inr ''disk full'',
    res_json = Inl ''bad json''\<rparr>"
  let ?empty = "Resolved \<lparr>res_ok = False, res_text = Inr [], res_json = Inr (JArr [])\<rparr>"
  let ?net = "Rejected ''Failed to fetch''"
  have f: "files ?s \<noteq> []"
    by simp
  have n: "notes ?s = ''hi''"
    by simp
  have p1: "(\<exists>e. ?full = Rejected e) \<or> (\<exists>res. ?full = Resolved res \<and> \<not> res_ok res)"
    by simp
  have p2: "(\<exists>e. ?empty = Rejected e) \<or> (\<exists>res. ?empty = Resolved res \<and> \<not> res_ok res)"
    by simp
  have p3: "(\<exists>e. ?net = Rejected e) \<or> (\<exists>res. ?net = Resolved res \<and> \<not> res_ok res)"
    by simp
  from failed_create_keeps_form [OF f p1, of "Rejected ''''"]
    failed_create_keeps_form [OF f p2, of "Rejected ''''"]
    failed_create_keeps_form [OF f p3, of "Rejected ''''"] f n
  show ?thesis
    by simp
qed

text \<open>
  C2 as the specification words it does not hold for a network error: there is no server
  body then, and the slot holds the browser's message, not the fallback \<open>Upload failed\<close>.
\<close>

theorem network_error_is_not_the_fallback:
  "uploadImage_result (Rejected ''Failed to fetch'') = Inl ''Failed to fetch''
   \<and> error (fst (handleSubmit (App_init\<lparr>files := [0::nat]\<rparr>) (Rejected ''Failed to fetch'')
        (Rejected ''''))) = Some ''Failed to fetch''
   \<and> error (fst (handleSubmit (App_init\<lparr>files := [0::nat]\<rparr>) (Rejected ''Failed to fetch'')
        (Rejected ''''))) \<noteq> Some ''Upload failed''"
  by (simp add: handleSubmit_def handleSubmit_start_def handleSubmit_uploaded_def
      uploadImage_result_def)

text \<open>
  C3. When the create request succeeds, the selection and the four text fields are empty
  afterwards, the active tab is \<open>recent\<close>, and the list request was sent right after the
  create request; the uploads list is what that request returned (when it fails in its
  turn, \<open>refresh\<close> keeps the list it had).
\<close>

theorem successful_submit_clears_and_refetches:
  assumes "files s \<noteq> []" and "uploadImage_result post = Inr r"
  shows "files (fst (handleSubmit s post get)) = []
       \<and> profileUrl (fst (handleSubmit s post get)) = []
       \<and> profileBio (fst (handleSubmit s post get)) = []
       \<and> conversationText (fst (handleSubmit s post get)) = []
       \<and> notes (fst (handleSubmit s post get)) = []
       \<and> activeTab (fst (handleSubmit s post get)) = ''recent''
       \<and> snd (handleSubmit s post get) =
           [PostUploads (uploadImage_formData (files s) (profileUrl s) (notes s)
              (profileBio s) (conversationText s)), GetUploads]
       \<and> uploads (fst (handleSubmit s post get)) =
           (case fetchUploads get of Inr data \<Rightarrow> data | Inl _ \<Rightarrow> uploads s)"
  by (simp add: handleSubmit_succeeded [OF assms] refresh_done_def split: sum.splits)

theorem successful_submit_clears_and_refetches_witness:
  "files (App_init\<lparr>files := [0::nat], notes := ''hi''\<rparr>) \<noteq> []
   \<and> uploadImage_result
        (Resolved \<lparr>res_ok = True, res_text = Inr ''[]'', res_json = Inr (JArr [])\<rparr>)
       = Inr (JArr [])
   \<and> notes (fst (handleSubmit (App_init\<lparr>files := [0::nat], notes := ''hi''\<rparr>)
        (Resolved \<lparr>res_ok = True, res_text = Inr ''[]'', res_json = Inr (JArr [])\<rparr>)
        (Resolved \<lparr>res_ok = True, res_text = Inr ''[7]'',
           res_json = Inr (JArr [JNum 7])\<rparr>))) = []
   \<and> uploads (fst (handleSubmit (App_init\<lparr>files := [0::nat], notes := ''hi''\<rparr>)
        (Resolved \<lparr>res_ok = True, res_text = Inr ''[]'', res_json = Inr (JArr [])\<rparr>)
        (Resolved \<lparr>res_ok = True, res_text = Inr ''[7]'',
           res_json = Inr (JArr [JNum 7])\<rparr>)))
       = JArr [JNum 7]"
proof -
  have f: "files (App_init\<lparr>files := [0::nat], notes := ''hi''\<rparr>) \<noteq> []"
    by simp
  have r: "uploadImage_result
        (Resolved \<lparr>res_ok = True, res_text = Inr ''[]'', res_json = Inr (JArr [])\<rparr>)
       = Inr (JArr [])"
    by (simp add: uploadImage_result_def)
  have g: "fetchUploads
        (Resolved \<lparr>res_ok = True, res_text = Inr ''[7]'', res_json = Inr (JArr [JNum 7])\<rparr>)
       = Inr (JArr [JNum 7])"
    by (simp add: fetchUploads_def)
  from successful_submit_clears_and_refetches [OF f r,
      of "Resolved \<lparr>res_ok = True, res_text = Inr ''[7]'', res_json = Inr (JArr [JNum 7])\<rparr>"]
    f r g
  show ?thesis
    by simp
qed


section \<open>Selecting files\<close>

text \<open>
  C4. \<open>handleFileChange\<close> replaces the selection by the first five entries of the file
  list it is given: the whole list when it has at most five entries, exactly five entries
  when it has more.
\<close>

theorem handleFileChange_takes_first_five:
  "files (handleFileChange (Some fl) s) = take 5 fl
   \<and> (length fl \<le> 5 \<longrightarrow> files (handleFileChange (Some fl) s) = fl)
   \<and> (5 < length fl \<longrightarrow> length (files (handleFileChange (Some fl) s)) = 5)"
  by (simp add: handleFileChange_def)

theorem handleFileChange_takes_first_five_witness:
  "5 < length [10, 11, 12, 13, 14, 15, 16 :: nat]
   \<and> files (handleFileChange (Some [10, 11, 12, 13, 14, 15, 16 :: nat]) App_init)
       = [10, 11, 12, 13, 14]
   \<and> length [10, 11 :: nat] \<le> 5
   \<and> files (handleFileChange (Some [10, 11 :: nat]) (App_init\<lparr>files := [1, 2, 3]\<rparr>))
       = [10, 11]"
  using handleFileChange_takes_first_five [of "[10, 11, 12, 13, 14, 15, 16 :: nat]" App_init]
    handleFileChange_takes_first_five [of "[10, 11 :: nat]" "App_init\<lparr>files := [1, 2, 3]\<rparr>"]
  by simp

text \<open>
  C10. A change event without a file list selects nothing: it gives the state that the
  empty file list gives, and whatever the event carries, the selection has at most five
  entries.
\<close>

theorem handleFileChange_missing_list:
  "handleFileChange None s = s\<lparr>files := []\<rparr>
   \<and> handleFileChange None s = handleFileChange (Some []) s
   \<and> length (files (handleFileChange fl s)) \<le> 5"
  by (simp add: handleFileChange_def)


section \<open>The list request\<close>

text \<open>
  C7. \<open>refresh\<close> sends the list request. When \<open>fetchUploads\<close> returns a list, that list
  replaces the uploads and nothing else changes; when it throws, the message goes into the
  error slot and the uploads are the ones shown before. It returns a list exactly for an
  ok response whose body parses.
\<close>

theorem refresh_replaces_or_keeps:
  "snd (refresh s out) = [GetUploads]
   \<and> (\<forall>data. fetchUploads out = Inr data \<longrightarrow> fst (refresh s out) = s\<lparr>uploads := data\<rparr>)
   \<and> (\<forall>m. fetchUploads out = Inl m \<longrightarrow>
         fst (refresh s out) = s\<lparr>error := Some m\<rparr>
         \<and> uploads (fst (refresh s out)) = uploads s)
   \<and> (\<forall>data. fetchUploads out = Inr data \<longleftrightarrow>
         (\<exists>res. out = Resolved res \<and> res_ok res \<and> res_json res = Inr data))"
  by (auto simp: refresh_def refresh_done_def fetchUploads_def split: fetch_outcome.splits)

theorem refresh_replaces_or_keeps_witness:
  "fetchUploads (Resolved \<lparr>res_ok = False, res_text = Inr ''oops'', res_json = Inl ''bad''\<rparr>)
     = Inl ''Failed to load uploads''
   \<and> uploads (fst (refresh (App_init\<lparr>files := [0::nat], uploads := JArr [JNum 1]\<rparr>)
        (Resolved \<lparr>res_ok = False, res_text = Inr ''oops'', res_json = Inl ''bad''\<rparr>)))
       = JArr [JNum 1]
   \<and> error (fst (refresh (App_init\<lparr>files := [0::nat], uploads := JArr [JNum 1]\<rparr>)
        (Resolved \<lparr>res_ok = False, res_text = Inr ''oops'', res_json = Inl ''bad''\<rparr>)))
       = Some ''Failed to load uploads''
   \<and> fetchUploads
        (Resolved \<lparr>res_ok = True, res_text = Inr ''[2]'', res_json = Inr (JArr [JNum 2])\<rparr>)
     = Inr (JArr [JNum 2])
   \<and> uploads (fst (refresh (App_init\<lparr>files := [0::nat], uploads := JArr [JNum 1]\<rparr>)
        (Resolved \<lparr>res_ok = True, res_text = Inr ''[2]'', res_json = Inr (JArr [JNum 2])\<rparr>)))
       = JArr [JNum 2]"
proof -
  have a: "fetchUploads
        (Resolved \<lparr>res_ok = False, res_text = Inr ''oops'', res_json = Inl ''bad''\<rparr>)
     = Inl ''Failed to load uploads''"
    by (simp add: fetchUploads_def)
  have b: "fetchUploads
        (Resolved \<lparr>res_ok = True, res_text = Inr ''[2]'', res_json = Inr (JArr [JNum 2])\<rparr>)
     = Inr (JArr [JNum 2])"
    by (simp add: fetchUploads_def)
  from refresh_replaces_or_keeps [of "App_init\<lparr>files := [0::nat], uploads := JArr [JNum 1]\<rparr>"
      "Resolved \<lparr>res_ok = False, res_text = Inr ''oops'', res_json = Inl ''bad''\<rparr>"]
    refresh_replaces_or_keeps [of "App_init\<lparr>files := [0::nat], uploads := JArr [JNum 1]\<rparr>"
      "Resolved \<lparr>res_ok = True, res_text = Inr ''[2]'', res_json = Inr (JArr [JNum 2])\<rparr>"]
    a b
  show ?thesis
    by simp
qed


section \<open>The body of the create request\<close>

text \<open>
  C9. In the body that \<open>uploadImage\<close> builds, the parts under \<open>files\<close> are the selected
  files, all of them and in order; under each of the four text keys there is one part,
  holding the value, when the value is not empty, and no part when it is empty; there is
  no other key, and no text part is empty.
\<close>

theorem formData_parts:
  "[p. (k, p) \<leftarrow> uploadImage_formData fs pu n pb ct, k = ''files''] = map FilePart fs
   \<and> [p. (k, p) \<leftarrow> uploadImage_formData fs pu n pb ct, k = ''profile_url'']
       = (if pu \<noteq> [] then [TextPart pu] else [])
   \<and> [p. (k, p) \<leftarrow> uploadImage_formData fs pu n pb ct, k = ''notes'']
       = (if n \<noteq> [] then [TextPart n] else [])
   \<and> [p. (k, p) \<leftarrow> uploadImage_formData fs pu n pb ct, k = ''profile_bio'']
       = (if pb \<noteq> [] then [TextPart pb] else [])
   \<and> [p. (k, p) \<leftarrow> uploadImage_formData fs pu n pb ct, k = ''conversation_text'']
       = (if ct \<noteq> [] then [TextPart ct] else [])
   \<and> fst ` set (uploadImage_formData fs pu n pb ct)
       \<subseteq> {''files'', ''profile_url'', ''notes'', ''profile_bio'', ''conversation_text''}
   \<and> (\<forall>k. (k, TextPart []) \<notin> set (uploadImage_formData fs pu n pb ct))"
  unfolding uploadImage_formData_def append_if_def
  by (induction fs) auto

theorem formData_parts_witness:
  "[p. (k, p) \<leftarrow> uploadImage_formData [0, 1 :: nat] ''https://example.com/@alice'' [] [] [],
      k = ''profile_url''] = [TextPart ''https://example.com/@alice'']
   \<and> [p. (k, p) \<leftarrow> uploadImage_formData [0, 1 :: nat] ''https://example.com/@alice'' [] [] [],
      k = ''notes''] = []
   \<and> [p. (k, p) \<leftarrow> uploadImage_formData [0, 1 :: nat] ''https://example.com/@alice'' [] [] [],
      k = ''files''] = [FilePart 0, FilePart 1]
   \<and> uploadImage_formData [0, 1 :: nat] ''https://example.com/@alice'' [] [] []
      = [(''files'', FilePart 0), (''files'', FilePart 1),
         (''profile_url'', TextPart ''https://example.com/@alice'')]"
  using formData_parts [of "[0, 1 :: nat]" "''https://example.com/@alice''" "[]" "[]" "[]"]
  by (simp add: uploadImage_formData_def append_if_def)

section \<open>Preview URLs\<close>

lemma revoke_urls_live:
  "live (revoke_urls us st) = filter (\<lambda>(u, _). u \<notin> set us) (live st)"
  by (induction us arbitrary: st) (auto simp: revokeObjectURL_def intro: filter_cong)

lemma revoke_urls_fresh: "fresh (revoke_urls us st) = fresh st"
  by (induction us arbitrary: st) (auto simp: revokeObjectURL_def)

lemma create_urls_spec:
  "create_urls fs st = (us, st') \<Longrightarrow>
   length us = length fs
   \<and> live st' = live st @ zip us fs
   \<and> fresh st' = fresh st + length fs
   \<and> (\<forall>u \<in> set us. fresh st \<le> u \<and> u < fresh st')
   \<and> distinct us"
proof (induction fs arbitrary: st us st')
  case Nil
  then show ?case by simp
next
  case (Cons f fs)
  let ?st0 = "st\<lparr>live := live st @ [(fresh st, f)], fresh := Suc (fresh st)\<rparr>"
  obtain us1 st1 where r: "create_urls fs ?st0 = (us1, st1)"
    by (cases "create_urls fs ?st0")
  with Cons.prems have us: "us = fresh st # us1" and st': "st' = st1"
    by (simp_all add: createObjectURL_def)
  from Cons.IH [OF r] show ?case
    by (auto simp: us st')
qed

lemma revoke_all_live:
  "map fst (live st) = us \<Longrightarrow> live (revoke_urls us st) = []"
  by (force simp: revoke_urls_live filter_empty_conv)

lemma files_effect_previews:
  assumes "map fst (live (store c)) = cleanup_urls c"
  shows "previews_in_step (files_effect c)"
    and "ui (files_effect c) = (ui c)\<lparr>previews := previews (ui (files_effect c))\<rparr>"
    and "\<forall>u \<in> set (previews (ui (files_effect c))). fresh (store c) \<le> u"
    and "tasks (files_effect c) = tasks c" and "sent (files_effect c) = sent c"
proof -
  let ?st1 = "revoke_urls (cleanup_urls c) (store c)"
  obtain us st2 where r: "create_urls (files (ui c)) ?st1 = (us, st2)"
    by (cases "create_urls (files (ui c)) ?st1")
  have l1: "live ?st1 = []"
    using assms by (rule revoke_all_live)
  from create_urls_spec [OF r] l1
  have len: "length us = length (files (ui c))"
    and l2: "live st2 = zip us (files (ui c))"
    and bd: "\<forall>u \<in> set us. fresh (store c) \<le> u \<and> u < fresh st2"
    and d: "distinct us"
    by (auto simp: revoke_urls_fresh)
  have fe: "files_effect c = c\<lparr>ui := (ui c)\<lparr>previews := us\<rparr>, store := st2, cleanup_urls := us\<rparr>"
    using r by (simp add: files_effect_def)
  show "previews_in_step (files_effect c)"
    using len l2 bd d by (simp add: fe previews_in_step_def)
  show "ui (files_effect c) = (ui c)\<lparr>previews := previews (ui (files_effect c))\<rparr>"
    by (simp add: fe)
  show "\<forall>u \<in> set (previews (ui (files_effect c))). fresh (store c) \<le> u"
    using bd by (simp add: fe)
  show "tasks (files_effect c) = tasks c" and "sent (files_effect c) = sent c"
    by (simp_all add: fe)
qed


lemma step_frame:
  assumes "step c ev = Some c'"
  shows "(\<exists>c1. c' = files_effect c1 \<and> store c1 = store c \<and> cleanup_urls c1 = cleanup_urls c)
       \<or> (store c' = store c \<and> cleanup_urls c' = cleanup_urls c
           \<and> files (ui c') = files (ui c) \<and> previews (ui c') = previews (ui c))"
proof (cases ev)
  case (FileChange fl)
  with assms have "c' = files_effect (c\<lparr>ui := handleFileChange fl (ui c)\<rparr>)"
    by (simp split: if_splits)
  then show ?thesis
    by (intro disjI1 exI [of _ "c\<lparr>ui := handleFileChange fl (ui c)\<rparr>"]) simp
next
  case (ProfileUrlChange v)
  with assms have "c' = c\<lparr>ui := (ui c)\<lparr>profileUrl := v\<rparr>\<rparr>"
    by (simp split: if_splits)
  then show ?thesis by simp
next
  case (ProfileBioChange v)
  with assms have "c' = c\<lparr>ui := (ui c)\<lparr>profileBio := v\<rparr>\<rparr>"
    by (simp split: if_splits)
  then show ?thesis by simp
next
  case (ConversationTextChange v)
  with assms have "c' = c\<lparr>ui := (ui c)\<lparr>conversationText := v\<rparr>\<rparr>"
    by (simp split: if_splits)
  then show ?thesis by simp
next
  case (NotesChange v)
  with assms have "c' = c\<lparr>ui := (ui c)\<lparr>notes := v\<rparr>\<rparr>"
    by (simp split: if_splits)
  then show ?thesis by simp
next
  case (TabClick t)
  with assms have "c' = c\<lparr>ui := (ui c)\<lparr>activeTab := t\<rparr>\<rparr>"
    by (simp split: if_splits)
  then show ?thesis by simp
next
  case Submit
  show ?thesis
  proof (cases "files (ui c) = []")
    case True
    with Submit assms have "c' = c\<lparr>ui := (ui c)\<lparr>error := Some ''Add at least one image''\<rparr>\<rparr>"
      by (simp add: handleSubmit_start_def split: if_splits)
    then show ?thesis by simp
  next
    case False
    with Submit assms
    have "c' = c\<lparr>ui := (ui c)\<lparr>isSubmitting := True, error := None\<rparr>,
        tasks := tasks c @ [SubmitUpload],
        sent := sent c @ [PostUploads (uploadImage_formData (files (ui c)) (profileUrl (ui c))
          (notes (ui c)) (profileBio (ui c)) (conversationText (ui c)))]\<rparr>"
      by (simp add: handleSubmit_start_def split: if_splits)
    then show ?thesis by simp
  qed
next
  case (MountRefreshSettled out)
  with assms
  have "c' = c\<lparr>ui := refresh_done (ui c) out, tasks := remove1 MountRefresh (tasks c)\<rparr>"
    by (simp split: if_splits)
  then show ?thesis
    by (simp add: refresh_done_def split: sum.splits)
next
  case (UploadSettled out)
  show ?thesis
  proof (cases "uploadImage_result out")
    case (Inl m)
    with UploadSettled assms
    have "c' = c\<lparr>ui := (ui c)\<lparr>error := Some m, isSubmitting := False\<rparr>,
        tasks := remove1 SubmitUpload (tasks c)\<rparr>"
      by (simp add: handleSubmit_uploaded_def split: if_splits)
    then show ?thesis by simp
  next
    case (Inr r)
    let ?c1 = "c\<lparr>ui := fst (handleSubmit_uploaded (ui c) out),
          tasks := remove1 SubmitUpload (tasks c) @ [SubmitRefresh],
          sent := sent c @ [GetUploads]\<rparr>"
    from Inr UploadSettled assms have "c' = files_effect ?c1"
      by (simp add: handleSubmit_uploaded_def split: if_splits)
    then show ?thesis
      by (intro disjI1 exI [of _ ?c1]) simp
  qed
next
  case (SubmitRefreshSettled out)
  with assms
  have "c' = c\<lparr>ui := handleSubmit_refreshed (ui c) out,
      tasks := remove1 SubmitRefresh (tasks c)\<rparr>"
    by (simp split: if_splits)
  then show ?thesis
    by (simp add: handleSubmit_refreshed_def refresh_done_def split: sum.splits)
qed


lemma step_previews:
  assumes "previews_in_step c" and "step c ev = Some c'"
  shows "previews_in_step c'"
  using step_frame [OF assms(2)]
proof (elim disjE exE conjE)
  fix c1
  assume "c' = files_effect c1" and "store c1 = store c" and "cleanup_urls c1 = cleanup_urls c"
  moreover from assms(1) have "map fst (live (store c)) = cleanup_urls c"
    by (simp add: previews_in_step_def)
  ultimately show ?thesis
    by (simp add: files_effect_previews(1))
next
  assume "store c' = store c" and "cleanup_urls c' = cleanup_urls c"
    and "files (ui c') = files (ui c)" and "previews (ui c') = previews (ui c)"
  with assms(1) show ?thesis
    by (simp add: previews_in_step_def)
qed

lemma step_files_changed:
  assumes "previews_in_step c" and "step c ev = Some c'" and "files (ui c') \<noteq> files (ui c)"
  shows "\<forall>u \<in> set (previews (ui c')). fresh (store c) \<le> u"
  using step_frame [OF assms(2)]
proof (elim disjE exE conjE)
  fix c1
  assume "c' = files_effect c1" and "store c1 = store c" and "cleanup_urls c1 = cleanup_urls c"
  moreover from assms(1) have "map fst (live (store c)) = cleanup_urls c"
    by (simp add: previews_in_step_def)
  ultimately show ?thesis
    using files_effect_previews(3) [of c1] by simp
next
  assume "files (ui c') = files (ui c)"
  with assms(3) show ?thesis
    by simp
qed

lemma mount_previews: "previews_in_step mount"
  by (simp add: mount_def files_effect_previews(1))

lemma run_previews:
  "previews_in_step c \<Longrightarrow> run c evs = Some c' \<Longrightarrow> previews_in_step c'"
proof (induction evs arbitrary: c)
  case Nil
  then show ?case by simp
next
  case (Cons ev evs)
  from Cons.prems(2) obtain c1 where s: "step c ev = Some c1" and r: "run c1 evs = Some c'"
    by (auto split: option.splits)
  from Cons.prems(1) s have "previews_in_step c1"
    by (rule step_previews)
  then show ?case
    using r by (rule Cons.IH)
qed

text \<open>
  C5. In every state the client can reach from its first render, the live object URLs are
  as many as the selected files: they are exactly the URLs in \<open>previews\<close>, pairwise
  different, the i-th pointing to the i-th selected file. And whenever an event changes the
  selection, every URL of the previous selection is gone from the live ones afterwards and
  there is one live URL per newly selected file.
\<close>

theorem live_previews_match_selection:
  assumes "run mount evs = Some c"
  shows "length (live (store c)) = length (files (ui c))
       \<and> map snd (live (store c)) = files (ui c)
       \<and> map fst (live (store c)) = previews (ui c)
       \<and> distinct (previews (ui c))
       \<and> (\<forall>ev c'. step c ev = Some c' \<and> files (ui c') \<noteq> files (ui c) \<longrightarrow>
             set (previews (ui c)) \<inter> fst ` set (live (store c')) = {}
             \<and> length (live (store c')) = length (files (ui c')))"
proof -
  have inv: "previews_in_step c"
    using mount_previews assms by (rule run_previews)
  then have snd_live: "map snd (live (store c)) = files (ui c)"
    and fst_live: "map fst (live (store c)) = previews (ui c)"
    and dist: "distinct (previews (ui c))"
    and old: "\<forall>u \<in> set (previews (ui c)). u < fresh (store c)"
    by (simp_all add: previews_in_step_def)
  from snd_live have len: "length (live (store c)) = length (files (ui c))"
    by (metis length_map)
  have changed: "set (previews (ui c)) \<inter> fst ` set (live (store c')) = {}
      \<and> length (live (store c')) = length (files (ui c'))"
    if s: "step c ev = Some c'" and ch: "files (ui c') \<noteq> files (ui c)" for ev c'
  proof
    have inv': "previews_in_step c'"
      using inv s by (rule step_previews)
    have new: "\<forall>u \<in> set (previews (ui c')). fresh (store c) \<le> u"
      using inv s ch by (rule step_files_changed)
    have "map fst (live (store c')) = previews (ui c')"
      using inv' by (simp add: previews_in_step_def)
    then have "fst ` set (live (store c')) = set (previews (ui c'))"
      by (metis set_map)
    moreover have "set (previews (ui c)) \<inter> set (previews (ui c')) = {}"
    proof (rule ccontr)
      assume "set (previews (ui c)) \<inter> set (previews (ui c')) \<noteq> {}"
      then obtain u where "u \<in> set (previews (ui c))" and "u \<in> set (previews (ui c'))"
        by blast
      with old new have "u < fresh (store c)" and "fresh (store c) \<le> u"
        by blast+
      then show False by simp
    qed
    ultimately show "set (previews (ui c)) \<inter> fst ` set (live (store c')) = {}"
      by simp
    have "map snd (live (store c')) = files (ui c')"
      using inv' by (simp add: previews_in_step_def)
    then show "length (live (store c')) = length (files (ui c'))"
      by (metis length_map)
  qed
  have "\<forall>ev c'. step c ev = Some c' \<and> files (ui c') \<noteq> files (ui c) \<longrightarrow>
             set (previews (ui c)) \<inter> fst ` set (live (store c')) = {}
             \<and> length (live (store c')) = length (files (ui c'))"
    using changed by blast
  with len snd_live fst_live dist show ?thesis
    by blast
qed

theorem live_previews_match_selection_witness:
  "run mount [FileChange (Some [10, 11, 12 :: nat]), NotesChange ''x'',
      FileChange (Some [20, 21])]
     = Some \<lparr>ui = \<lparr>activeTab = ''dashboard'', files = [20, 21], previews = [3, 4],
                     profileUrl = [], profileBio = [], conversationText = [], notes = ''x'',
                     uploads = JArr [], error = None, isSubmitting = False\<rparr>,
               store = \<lparr>live = [(3, 20), (4, 21)], fresh = 5\<rparr>, cleanup_urls = [3, 4],
               tasks = [MountRefresh], sent = [GetUploads]\<rparr>
   \<and> step \<lparr>ui = \<lparr>activeTab = ''dashboard'', files = [20, 21 :: nat], previews = [3, 4],
                   profileUrl = [], profileBio = [], conversationText = [], notes = ''x'',
                   uploads = JArr [], error = None, isSubmitting = False\<rparr>,
             store = \<lparr>live = [(3, 20), (4, 21)], fresh = 5\<rparr>, cleanup_urls = [3, 4],
             tasks = [MountRefresh], sent = [GetUploads]\<rparr>
          (FileChange (Some [30]))
     = Some \<lparr>ui = \<lparr>activeTab = ''dashboard'', files = [30], previews = [5],
                     profileUrl = [], profileBio = [], conversationText = [], notes = ''x'',
                     uploads = JArr [], error = None, isSubmitting = False\<rparr>,
               store = \<lparr>live = [(5, 30)], fresh = 6\<rparr>, cleanup_urls = [5],
               tasks = [MountRefresh], sent = [GetUploads]\<rparr>
   \<and> [30 :: nat] \<noteq> [20, 21]
   \<and> set [3, 4 :: nat] \<inter> fst ` set [(5 :: nat, 30 :: nat)] = {}
   \<and> length [(3 :: nat, 20 :: nat), (4, 21)] = length [20, 21 :: nat]"
proof -
  let ?c0 = "\<lparr>ui = \<lparr>activeTab = ''dashboard'', files = [20, 21 :: nat], previews = [3, 4],
                   profileUrl = [], profileBio = [], conversationText = [], notes = ''x'',
                   uploads = JArr [], error = None, isSubmitting = False\<rparr>,
             store = \<lparr>live = [(3, 20), (4, 21)], fresh = 5\<rparr>, cleanup_urls = [3, 4],
             tasks = [MountRefresh], sent = [GetUploads]\<rparr>"
  let ?c1 = "\<lparr>ui = \<lparr>activeTab = ''dashboard'', files = [30 :: nat], previews = [5],
                   profileUrl = [], profileBio = [], conversationText = [], notes = ''x'',
                   uploads = JArr [], error = None, isSubmitting = False\<rparr>,
             store = \<lparr>live = [(5, 30)], fresh = 6\<rparr>, cleanup_urls = [5],
             tasks = [MountRefresh], sent = [GetUploads]\<rparr>"
  have r: "run mount [FileChange (Some [10, 11, 12 :: nat]), NotesChange ''x'',
      FileChange (Some [20, 21])] = Some ?c0"
    by code_simp
  have s: "step ?c0 (FileChange (Some [30])) = Some ?c1"
    by code_simp
  have n: "files (ui ?c1) \<noteq> files (ui ?c0)"
    by simp
  from live_previews_match_selection [OF r]
  have "length (live (store ?c0)) = length (files (ui ?c0))"
    and "\<forall>ev c'. step ?c0 ev = Some c' \<and> files (ui c') \<noteq> files (ui ?c0) \<longrightarrow>
           set (previews (ui ?c0)) \<inter> fst ` set (live (store c')) = {}
           \<and> length (live (store c')) = length (files (ui c'))"
    by blast+
  with s n
  have "length (live (store ?c0)) = length (files (ui ?c0))"
    and "set (previews (ui ?c0)) \<inter> fst ` set (live (store ?c1)) = {}"
    by blast+
  with r s show ?thesis
    by simp
qed

section \<open>One create request at a time\<close>

lemma count_list_remove1:
  "count_list (remove1 x xs) y =
     (if x = y \<and> x \<in> set xs then count_list xs y - 1 else count_list xs y)"
  by (induction xs) auto

lemma in_set_count: "x \<in> set xs \<Longrightarrow> Suc 0 \<le> count_list xs x"
  by (induction xs) auto

lemma files_effect_frame:
  "tasks (files_effect c) = tasks c"
  "sent (files_effect c) = sent c"
  "isSubmitting (ui (files_effect c)) = isSubmitting (ui c)"
  "activeTab (ui (files_effect c)) = activeTab (ui c)"
  by (simp_all add: files_effect_def split: prod.splits)

text \<open>What one event does to the suspended functions, the request log and the flag.\<close>

lemma step_submitting:
  assumes "step c ev = Some c'"
  shows "(tasks c' = tasks c \<and> sent c' = sent c
            \<and> isSubmitting (ui c') = isSubmitting (ui c))
       \<or> (\<not> isSubmitting (ui c) \<and> isSubmitting (ui c')
            \<and> tasks c' = tasks c @ [SubmitUpload]
            \<and> (\<exists>fd. sent c' = sent c @ [PostUploads fd]))
       \<or> (tasks c' = remove1 MountRefresh (tasks c) \<and> sent c' = sent c
            \<and> isSubmitting (ui c') = isSubmitting (ui c))
       \<or> (SubmitUpload \<in> set (tasks c) \<and> \<not> isSubmitting (ui c')
            \<and> tasks c' = remove1 SubmitUpload (tasks c) \<and> sent c' = sent c)
       \<or> (SubmitUpload \<in> set (tasks c) \<and> isSubmitting (ui c') = isSubmitting (ui c)
            \<and> tasks c' = remove1 SubmitUpload (tasks c) @ [SubmitRefresh]
            \<and> sent c' = sent c @ [GetUploads])
       \<or> (SubmitRefresh \<in> set (tasks c) \<and> \<not> isSubmitting (ui c')
            \<and> tasks c' = remove1 SubmitRefresh (tasks c) \<and> sent c' = sent c)"
proof (cases ev)
  case (FileChange fl)
  with assms have "c' = files_effect (c\<lparr>ui := handleFileChange fl (ui c)\<rparr>)"
    by (simp split: if_splits)
  then show ?thesis
    by (simp add: files_effect_frame handleFileChange_def)
next
  case (ProfileUrlChange v)
  with assms have "c' = c\<lparr>ui := (ui c)\<lparr>profileUrl := v\<rparr>\<rparr>"
    by (simp split: if_splits)
  then show ?thesis by simp
next
  case (ProfileBioChange v)
  with assms have "c' = c\<lparr>ui := (ui c)\<lparr>profileBio := v\<rparr>\<rparr>"
    by (simp split: if_splits)
  then show ?thesis by simp
next
  case (ConversationTextChange v)
  with assms have "c' = c\<lparr>ui := (ui c)\<lparr>conversationText := v\<rparr>\<rparr>"
    by (simp split: if_splits)
  then show ?thesis by simp
next
  case (NotesChange v)
  with assms have "c' = c\<lparr>ui := (ui c)\<lparr>notes := v\<rparr>\<rparr>"
    by (simp split: if_splits)
  then show ?thesis by simp
next
  case (TabClick t)
  with assms have "c' = c\<lparr>ui := (ui c)\<lparr>activeTab := t\<rparr>\<rparr>"
    by (simp split: if_splits)
  then show ?thesis by simp
next
  case Submit
  with assms have en: "\<not> isSubmitting (ui c)"
    by (simp add: submit_enabled_def split: if_splits)
  show ?thesis
  proof (cases "files (ui c) = []")
    case True
    with Submit assms have "c' = c\<lparr>ui := (ui c)\<lparr>error := Some ''Add at least one image''\<rparr>\<rparr>"
      by (simp add: handleSubmit_start_def split: if_splits)
    then show ?thesis by simp
  next
    case False
    with Submit assms
    have "c' = c\<lparr>ui := (ui c)\<lparr>isSubmitting := True, error := None\<rparr>,
        tasks := tasks c @ [SubmitUpload],
        sent := sent c @ [PostUploads (uploadImage_formData (files (ui c)) (profileUrl (ui c))
          (notes (ui c)) (profileBio (ui c)) (conversationText (ui c)))]\<rparr>"
      by (simp add: handleSubmit_start_def split: if_splits)
    with en show ?thesis by simp
  qed
next
  case (MountRefreshSettled out)
  with assms
  have "c' = c\<lparr>ui := refresh_done (ui c) out, tasks := remove1 MountRefresh (tasks c)\<rparr>"
    by (simp split: if_splits)
  then show ?thesis
    by (simp add: refresh_done_def split: sum.splits)
next
  case (UploadSettled out)
  with assms have t: "SubmitUpload \<in> set (tasks c)"
    by (simp split: if_splits)
  show ?thesis
  proof (cases "uploadImage_result out")
    case (Inl m)
    with UploadSettled assms
    have "c' = c\<lparr>ui := (ui c)\<lparr>error := Some m, isSubmitting := False\<rparr>,
        tasks := remove1 SubmitUpload (tasks c)\<rparr>"
      by (simp add: handleSubmit_uploaded_def split: if_splits)
    with t show ?thesis by simp
  next
    case (Inr r)
    let ?c1 = "c\<lparr>ui := fst (handleSubmit_uploaded (ui c) out),
          tasks := remove1 SubmitUpload (tasks c) @ [SubmitRefresh],
          sent := sent c @ [GetUploads]\<rparr>"
    from Inr UploadSettled assms have "c' = files_effect ?c1"
      by (simp add: handleSubmit_uploaded_def split: if_splits)
    with t Inr show ?thesis
      by (simp add: files_effect_frame handleSubmit_uploaded_def)
  qed
next
  case (SubmitRefreshSettled out)
  with assms have t: "SubmitRefresh \<in> set (tasks c)"
    by (simp split: if_splits)
  from SubmitRefreshSettled assms
  have "c' = c\<lparr>ui := handleSubmit_refreshed (ui c) out,
      tasks := remove1 SubmitRefresh (tasks c)\<rparr>"
    by (simp split: if_splits)
  with t show ?thesis
    by (simp add: handleSubmit_refreshed_def)
qed

lemma step_one_submit:
  assumes "one_submit c" and "step c ev = Some c'"
  shows "one_submit c'"
  using step_submitting [OF assms(2)] assms(1)
    in_set_count [of SubmitUpload "tasks c"] in_set_count [of SubmitRefresh "tasks c"]
  by (elim disjE conjE exE)
    (auto simp: one_submit_def submits_pending_def count_list_remove1 count_list_0_iff
      split: if_splits)

lemma mount_one_submit: "one_submit mount"
  by (simp add: one_submit_def submits_pending_def mount_def files_effect_frame App_init_def)

lemma run_one_submit:
  "one_submit c \<Longrightarrow> run c evs = Some c' \<Longrightarrow> one_submit c'"
proof (induction evs arbitrary: c)
  case Nil
  then show ?case by simp
next
  case (Cons ev evs)
  from Cons.prems(2) obtain c1 where s: "step c ev = Some c1" and r: "run c1 evs = Some c'"
    by (auto split: option.splits)
  from Cons.prems(1) s have "one_submit c1"
    by (rule step_one_submit)
  then show ?case
    using r by (rule Cons.IH)
qed


text \<open>
  C8. In every state the client can reach from its first render, at most one create
  request is in flight, and the submitting flag is set exactly while a submit handler is
  suspended at its create request or at the list request that follows it. While the flag
  is set the submit button is disabled, so that a submit event cannot happen, and no event
  that can happen sends a create request.
\<close>

theorem no_second_create_while_submitting:
  assumes "run mount evs = Some c"
  shows "count_list (tasks c) SubmitUpload \<le> 1
       \<and> (SubmitUpload \<in> set (tasks c) \<longrightarrow> isSubmitting (ui c))
       \<and> (isSubmitting (ui c) \<longrightarrow> \<not> submit_enabled c \<and> step c Submit = None)
       \<and> (\<forall>ev c'. isSubmitting (ui c) \<and> step c ev = Some c' \<longrightarrow>
             creates (sent c') = creates (sent c))
       \<and> (isSubmitting (ui c) \<longleftrightarrow>
             SubmitUpload \<in> set (tasks c) \<or> SubmitRefresh \<in> set (tasks c))"
proof -
  have "one_submit c"
    using mount_one_submit assms by (rule run_one_submit)
  then have inv: "count_list (tasks c) SubmitUpload + count_list (tasks c) SubmitRefresh
      = (if isSubmitting (ui c) then 1 else 0)"
    by (simp add: one_submit_def submits_pending_def)
  have le: "count_list (tasks c) SubmitUpload \<le> 1"
    using inv by (simp split: if_splits)
  have flag: "isSubmitting (ui c) \<longleftrightarrow>
      SubmitUpload \<in> set (tasks c) \<or> SubmitRefresh \<in> set (tasks c)"
    using inv in_set_count [of SubmitUpload "tasks c"] in_set_count [of SubmitRefresh "tasks c"]
      count_list_0_iff [of "tasks c" SubmitUpload] count_list_0_iff [of "tasks c" SubmitRefresh]
    by (auto split: if_splits)
  have off: "isSubmitting (ui c) \<longrightarrow> \<not> submit_enabled c \<and> step c Submit = None"
    by (simp add: submit_enabled_def)
  have quiet: "creates (sent c') = creates (sent c)"
    if "isSubmitting (ui c)" and s: "step c ev = Some c'" for ev c'
    using step_submitting [OF s] that(1)
    by (elim disjE conjE exE) (simp_all add: creates_def)
  then have "\<forall>ev c'. isSubmitting (ui c) \<and> step c ev = Some c' \<longrightarrow>
      creates (sent c') = creates (sent c)"
    by blast
  with le flag off show ?thesis
    by blast
qed

theorem no_second_create_while_submitting_witness:
  "run mount [FileChange (Some [10 :: nat]), Submit]
     = Some \<lparr>ui = \<lparr>activeTab = ''dashboard'', files = [10], previews = [0],
                     profileUrl = [], profileBio = [], conversationText = [], notes = [],
                     uploads = JArr [], error = None, isSubmitting = True\<rparr>,
               store = \<lparr>live = [(0, 10)], fresh = 1\<rparr>, cleanup_urls = [0],
               tasks = [MountRefresh, SubmitUpload],
               sent = [GetUploads, PostUploads [(''files'', FilePart 10)]]\<rparr>
   \<and> SubmitUpload \<in> set [MountRefresh, SubmitUpload]
   \<and> step \<lparr>ui = \<lparr>activeTab = ''dashboard'', files = [10 :: nat], previews = [0],
                   profileUrl = [], profileBio = [], conversationText = [], notes = [],
                   uploads = JArr [], error = None, isSubmitting = True\<rparr>,
             store = \<lparr>live = [(0, 10)], fresh = 1\<rparr>, cleanup_urls = [0],
             tasks = [MountRefresh, SubmitUpload],
             sent = [GetUploads, PostUploads [(''files'', FilePart 10)]]\<rparr>
          Submit = None
   \<and> step \<lparr>ui = \<lparr>activeTab = ''dashboard'', files = [10 :: nat], previews = [0],
                   profileUrl = [], profileBio = [], conversationText = [], notes = [],
                   uploads = JArr [], error = None, isSubmitting = True\<rparr>,
             store = \<lparr>live = [(0, 10)], fresh = 1\<rparr>, cleanup_urls = [0],
             tasks = [MountRefresh, SubmitUpload],
             sent = [GetUploads, PostUploads [(''files'', FilePart 10)]]\<rparr>
          (NotesChange ''x'')
     = Some \<lparr>ui = \<lparr>activeTab = ''dashboard'', files = [10], previews = [0],
                     profileUrl = [], profileBio = [], conversationText = [], notes = ''x'',
                     uploads = JArr [], error = None, isSubmitting = True\<rparr>,
               store = \<lparr>live = [(0, 10)], fresh = 1\<rparr>, cleanup_urls = [0],
               tasks = [MountRefresh, SubmitUpload],
               sent = [GetUploads, PostUploads [(''files'', FilePart 10)]]\<rparr>
   \<and> creates [GetUploads, PostUploads [(''files'', FilePart (10 :: nat))]]
     = [[(''files'', FilePart 10)]]"
proof -
  let ?c0 = "\<lparr>ui = \<lparr>activeTab = ''dashboard'', files = [10 :: nat], previews = [0],
                   profileUrl = [], profileBio = [], conversationText = [], notes = [],
                   uploads = JArr [], error = None, isSubmitting = True\<rparr>,
             store = \<lparr>live = [(0, 10)], fresh = 1\<rparr>, cleanup_urls = [0],
             tasks = [MountRefresh, SubmitUpload],
             sent = [GetUploads, PostUploads [(''files'', FilePart 10)]]\<rparr>"
  let ?c1 = "\<lparr>ui = \<lparr>activeTab = ''dashboard'', files = [10 :: nat], previews = [0],
                   profileUrl = [], profileBio = [], conversationText = [], notes = ''x'',
                   uploads = JArr [], error = None, isSubmitting = True\<rparr>,
             store = \<lparr>live = [(0, 10)], fresh = 1\<rparr>, cleanup_urls = [0],
             tasks = [MountRefresh, SubmitUpload],
             sent = [GetUploads, PostUploads [(''files'', FilePart 10)]]\<rparr>"
  have r: "run mount [FileChange (Some [10 :: nat]), Submit] = Some ?c0"
    by code_simp
  have s: "step ?c0 (NotesChange ''x'') = Some ?c1"
    by code_simp
  have f: "isSubmitting (ui ?c0)" and t: "SubmitUpload \<in> set (tasks ?c0)"
    by simp_all
  from no_second_create_while_submitting [OF r]
  have "isSubmitting (ui ?c0) \<longrightarrow> \<not> submit_enabled ?c0 \<and> step ?c0 Submit = None"
    and "\<forall>ev c'. isSubmitting (ui ?c0) \<and> step ?c0 ev = Some c' \<longrightarrow>
           creates (sent c') = creates (sent ?c0)"
    by blast+
  with f s have "step ?c0 Submit = None" and "creates (sent ?c1) = creates (sent ?c0)"
    by blast+
  with r s show ?thesis
    by (simp add: creates_def)
qed


section \<open>The error slot across attempts\<close>

text \<open>
  C6 at a trace of the running client. The list request of the first render is still in
  flight when the user selects a file and submits; it then fails, which puts its message
  into the error slot. The create request succeeds, \<open>handleSubmit\<close> calls \<open>refresh\<close>, and
  this later attempt succeeds too. \<open>refresh\<close> has no \<open>setError(null)\<close>: the message of the
  earlier, failed attempt is still in the slot when the later one is over, and the
  dashboard shows it once the user is back on that tab. The same holds of \<open>refresh\<close> taken
  alone, started with a message in the slot.
\<close>

theorem refresh_leaves_stale_error:
  "run mount
     [FileChange (Some [10 :: nat]), Submit,
      MountRefreshSettled (Rejected ''Failed to fetch''),
      UploadSettled (Resolved \<lparr>res_ok = True, res_text = Inr ''[]'', res_json = Inr (JArr [])\<rparr>),
      SubmitRefreshSettled
        (Resolved \<lparr>res_ok = True, res_text = Inr ''[]'', res_json = Inr (JArr [JStr ''a.png''])\<rparr>),
      TabClick ''dashboard'']
     = Some \<lparr>ui = \<lparr>activeTab = ''dashboard'', files = [], previews = [],
                     profileUrl = [], profileBio = [], conversationText = [], notes = [],
                     uploads = JArr [JStr ''a.png''], error = Some ''Failed to fetch'',
                     isSubmitting = False\<rparr>,
               store = \<lparr>live = [], fresh = 1\<rparr>, cleanup_urls = [], tasks = [],
               sent = [GetUploads, PostUploads [(''files'', FilePart 10)], GetUploads]\<rparr>
   \<and> shown_error
        \<lparr>activeTab = ''dashboard'', files = [] :: nat list, previews = [],
          profileUrl = [], profileBio = [], conversationText = [], notes = [],
          uploads = JArr [JStr ''a.png''], error = Some ''Failed to fetch'',
          isSubmitting = False\<rparr>
     = Some ''Failed to fetch''
   \<and> fst (refresh ((App_init :: nat app)\<lparr>error := Some ''Failed to fetch''\<rparr>)
        (Resolved \<lparr>res_ok = True, res_text = Inr ''[]'', res_json = Inr (JArr [JStr ''a.png''])\<rparr>))
     = (App_init :: nat app)\<lparr>error := Some ''Failed to fetch'', uploads := JArr [JStr ''a.png'']\<rparr>"
proof (intro conjI)
  show "run mount
     [FileChange (Some [10 :: nat]), Submit,
      MountRefreshSettled (Rejected ''Failed to fetch''),
      UploadSettled (Resolved \<lparr>res_ok = True, res_text = Inr ''[]'', res_json = Inr (JArr [])\<rparr>),
      SubmitRefreshSettled
        (Resolved \<lparr>res_ok = True, res_text = Inr ''[]'', res_json = Inr (JArr [JStr ''a.png''])\<rparr>),
      TabClick ''dashboard'']
     = Some \<lparr>ui = \<lparr>activeTab = ''dashboard'', files = [], previews = [],
                     profileUrl = [], profileBio = [], conversationText = [], notes = [],
                     uploads = JArr [JStr ''a.png''], error = Some ''Failed to fetch'',
                     isSubmitting = False\<rparr>,
               store = \<lparr>live = [], fresh = 1\<rparr>, cleanup_urls = [], tasks = [],
               sent = [GetUploads, PostUploads [(''files'', FilePart 10)], GetUploads]\<rparr>"
    by code_simp
qed (simp_all add: shown_error_def DashboardView_error_def refresh_def refresh_done_def
    fetchUploads_def)

end
